theory Spec2Isabelle
  imports Main
begin

section \<open>Data model of \<open>goosebit/updater/manager.py\<close>\<close>

text \<open>
  The update manager of goosebit decides, for each poll of a device, whether a firmware
  update is offered, keeps the device's installation log and streams it to subscribers.
  The Python source works on three kinds of shared state: the persistence layer
  (Tortoise ORM tables), the in-process cache (aiocache, namespace \<open>main\<close>) and the
  class-level dictionaries of \<open>UpdateManager\<close>. All of it is a record here, passed
  through every operation and returned updated.
\<close>

datatype HandlingType = SKIP | ATTEMPT | FORCED

text \<open>
  \<open>UpdateModeEnum\<close> and \<open>UpdateStateEnum\<close> are imported from \<open>goosebit.models\<close>.
  Modelled from the spec: the update modes are PINNED, LATEST, ASSIGNED and ROLLOUT; the
  update states are UNKNOWN, REGISTERED, RUNNING, UPDATING, ERROR and further ones, which
  \<open>OTHER_STATE\<close> stands for.
\<close>

datatype UpdateModeEnum = PINNED | LATEST | ASSIGNED | ROLLOUT

datatype UpdateStateEnum = UNKNOWN | REGISTERED | RUNNING | UPDATING | ERROR | OTHER_STATE nat

record Hardware =
  model :: string
  revision :: string

record Firmware =
  version :: string

record Rollout =
  firmware :: Firmware
  paused :: bool

text \<open>
  Python attributes are dynamically typed: \<open>update_log\<close> assigns to \<open>device.progress\<close>
  the text a regular expression captured, where the column holds an integer or nothing.
  The attribute is therefore a tagged value; \<open>py_int\<close> is Python's \<open>int(...)\<close> on it
  (decimal digits only).
\<close>

datatype pyval = PyNone | PyInt int | PyStr string

record Device =
  uuid :: string
  name :: "string option"
  hardware :: Hardware
  fw_version :: "string option"
  last_state :: UpdateStateEnum
  update_mode :: UpdateModeEnum
  assigned_firmware :: "Firmware option"
  force_update :: bool
  last_seen :: "int option"
  last_ip :: "string option"
  last_ipv6 :: "string option"
  progress :: pyval
  last_log :: "string option"
  log_complete :: bool

text \<open>A log subscriber is a callable; only its identity and what it is called with matter.\<close>

type_synonym callback = nat

text \<open>
  The calls the manager makes to its collaborators, in the order it makes them:
  \<open>await cb(log_data)\<close>, \<open>cache.set(key, device, ttl)\<close>,
  \<open>device.save(update_fields)\<close> and \<open>devices_count.set(n)\<close>. One coroutine runs
  from its call to its return with no other in between. The cache, the database and the
  gauge return; so does a callback that \<open>publish_log\<close> calls. The first call of a
  callback, in \<open>subscribe_log\<close>, may also raise or be cancelled: its outcome is a
  parameter there.
\<close>

datatype event =
    Deliver callback "string option"
  | CacheSet string Device nat
  | DbSave Device "string list"
  | Telemetry nat

text \<open>
  The shared state. \<open>devices\<close> and \<open>hardwares\<close> are the tables of the persistence
  layer (a device row is found by its \<open>uuid\<close>, the primary key); \<open>cache\<close> is the
  cache object of the \<open>@cached\<close> decorator of \<open>get_device\<close>, each entry with the
  time it expires at, and \<open>now\<close> the clock; \<open>hardware_default\<close> is the class attribute of \<open>DeviceUpdateManager\<close>;
  \<open>device_log_subscriptions\<close> and \<open>device_poll_time\<close> are the class-level
  dictionaries of \<open>UpdateManager\<close>.
\<close>

record world =
  devices :: "Device list"
  hardwares :: "Hardware set"
  cache :: "string \<rightharpoonup> (Device \<times> nat)"
  now :: nat
  hardware_default :: "Hardware option"
  device_log_subscriptions :: "string \<rightharpoonup> callback list"
  device_poll_time :: "string \<rightharpoonup> string"
  events :: "event list"

text \<open>
  What the source imports and this file does not define: the two configured intervals of
  \<open>goosebit.settings\<close>, the column defaults of a new \<open>Device\<close> row, and the two queries
  of \<open>goosebit.models\<close> (\<open>Firmware.latest(device)\<close> and the newest rollout whose firmware
  is compatible with a device), which read tables this module never writes. They are
  parameters of every operation.
\<close>

record env =
  POLL_TIME :: string
  POLL_TIME_UPDATING :: string
  device_defaults :: Device
  firmware_latest :: "Device list \<Rightarrow> Device option \<Rightarrow> Firmware option"
  rollout_first :: "Device list \<Rightarrow> string \<Rightarrow> Rollout option"

section \<open>Cache and persistence\<close>

text \<open>
  aiocache's memory backend: an entry set with a time-to-live is gone once that time has
  passed; \<open>get\<close> of a missing key is \<open>None\<close>. Every cache object has a store of its
  own. The decorator of \<open>get_device\<close> keeps one cache object, with the pickle
  serializer, for the life of the process: a value read from it is a copy, so a device is
  a value here, never an alias of the object a caller changes.
\<close>

definition cache_get :: "string \<Rightarrow> world \<Rightarrow> Device option" where
  "cache_get key w =
     (case cache w key of
        None \<Rightarrow> None
      | Some (d, expires) \<Rightarrow> if now w < expires then Some d else None)"

definition cache_put :: "string \<Rightarrow> Device \<Rightarrow> nat \<Rightarrow> world \<Rightarrow> world" where
  "cache_put key d ttl w = w\<lparr>cache := (cache w)(key \<mapsto> (d, now w + ttl))\<rparr>"

text \<open>Time passing between two calls.\<close>

definition tick :: "nat \<Rightarrow> world \<Rightarrow> world" where
  "tick n w = w\<lparr>now := now w + n\<rparr>"

definition find_device :: "string \<Rightarrow> Device list \<Rightarrow> Device option" where
  "find_device key rows = find (\<lambda>row. uuid row = key) rows"

text \<open>\<open>Hardware.get_or_create(model=..., revision=...)\<close>: the row, inserted when new.\<close>

definition hardware_get_or_create :: "string \<Rightarrow> string \<Rightarrow> world \<Rightarrow> Hardware \<times> world" where
  "hardware_get_or_create m r w =
     (let hw = \<lparr>model = m, revision = r\<rparr>
      in (hw, w\<lparr>hardwares := insert hw (hardwares w)\<rparr>))"

text \<open>\<open>Device.get_or_create(uuid=dev_id, defaults={"hardware": hardware})\<close>.\<close>

definition device_get_or_create :: "env \<Rightarrow> string \<Rightarrow> Hardware \<Rightarrow> world \<Rightarrow> Device \<times> world" where
  "device_get_or_create E dev_id hw w =
     (case find_device dev_id (devices w) of
        Some row \<Rightarrow> (row, w)
      | None \<Rightarrow>
          (let row = (device_defaults E)\<lparr>uuid := dev_id, hardware := hw\<rparr>
           in (row, w\<lparr>devices := devices w @ [row]\<rparr>)))"

text \<open>
  \<open>device.save(update_fields=[...])\<close> writes the listed columns of the object to its
  row (an UPDATE by primary key: no row, no change) and leaves the other columns alone.
\<close>

definition copy_field :: "Device \<Rightarrow> Device \<Rightarrow> string \<Rightarrow> Device" where
  "copy_field d row f =
     (if f = ''force_update'' then row\<lparr>force_update := force_update d\<rparr>
      else if f = ''fw_version'' then row\<lparr>fw_version := fw_version d\<rparr>
      else if f = ''hardware'' \<or> f = ''hardware_id'' then row\<lparr>hardware := hardware d\<rparr>
      else if f = ''last_state'' then row\<lparr>last_state := last_state d\<rparr>
      else if f = ''last_seen'' then row\<lparr>last_seen := last_seen d\<rparr>
      else if f = ''last_ip'' then row\<lparr>last_ip := last_ip d\<rparr>
      else if f = ''last_ipv6'' then row\<lparr>last_ipv6 := last_ipv6 d\<rparr>
      else if f = ''assigned_firmware_id'' then row\<lparr>assigned_firmware := assigned_firmware d\<rparr>
      else if f = ''update_mode'' then row\<lparr>update_mode := update_mode d\<rparr>
      else if f = ''name'' then row\<lparr>name := name d\<rparr>
      else if f = ''log_complete'' then row\<lparr>log_complete := log_complete d\<rparr>
      else if f = ''progress'' then row\<lparr>progress := progress d\<rparr>
      else if f = ''last_log'' then row\<lparr>last_log := last_log d\<rparr>
      else row)"

definition copy_fields :: "Device \<Rightarrow> string list \<Rightarrow> Device \<Rightarrow> Device" where
  "copy_fields d update_fields row = foldl (copy_field d) row update_fields"

definition device_save :: "Device \<Rightarrow> string list \<Rightarrow> world \<Rightarrow> world" where
  "device_save d update_fields w =
     w\<lparr>devices := map (\<lambda>row. if uuid row = uuid d then copy_fields d update_fields row else row)
                      (devices w),
       events := events w @ [DbSave d update_fields]\<rparr>"

section \<open>\<open>DeviceUpdateManager\<close>: cached device access\<close>

text \<open>
  \<open>get_device\<close> is wrapped by \<open>@cached(ttl=600, key_builder=... self.dev_id,
  namespace="main")\<close>: a hit returns the cached value and does not run the body; a miss
  runs the body and stores its result for 600 time units.
\<close>

definition get_device_body :: "env \<Rightarrow> string \<Rightarrow> world \<Rightarrow> Device \<times> world" where
  "get_device_body E dev_id w =
     (let (hw, w1) =
            (case hardware_default w of
               None \<Rightarrow>
                 (let (h, w') = hardware_get_or_create ''default'' ''default'' w
                  in (h, w'\<lparr>hardware_default := Some h\<rparr>))
             | Some h \<Rightarrow> (h, w))
      in device_get_or_create E dev_id hw w1)"

definition get_device :: "env \<Rightarrow> string \<Rightarrow> world \<Rightarrow> Device \<times> world" where
  "get_device E dev_id w =
     (case cache_get dev_id w of
        Some d \<Rightarrow> (d, w)
      | None \<Rightarrow>
          (let (d, w1) = get_device_body E dev_id w
           in (d, cache_put dev_id d 600 w1)))"

text \<open>
  \<open>save_device\<close> builds a new object, \<open>Cache(namespace="main")\<close>, sets the device in
  it and saves the row. The new object's store is not the decorator's: the call is made,
  and recorded, but the entry \<open>get_device\<close> reads stays as it was.
\<close>

definition save_device :: "string \<Rightarrow> Device \<Rightarrow> string list \<Rightarrow> world \<Rightarrow> world" where
  "save_device dev_id device update_fields w =
     (let w1 = w\<lparr>events := events w @ [CacheSet dev_id device 600]\<rparr>
      in device_save device update_fields w1)"

text \<open>The setters of \<open>DeviceUpdateManager\<close> the decision and the log use.\<close>

definition update_force_update :: "env \<Rightarrow> string \<Rightarrow> bool \<Rightarrow> world \<Rightarrow> world" where
  "update_force_update E dev_id b w =
     (let (device, w1) = get_device E dev_id w
      in save_device dev_id (device\<lparr>force_update := b\<rparr>) [''force_update''] w1)"

definition update_fw_version :: "env \<Rightarrow> string \<Rightarrow> string \<Rightarrow> world \<Rightarrow> world" where
  "update_fw_version E dev_id v w =
     (let (device, w1) = get_device E dev_id w
      in save_device dev_id (device\<lparr>fw_version := Some v\<rparr>) [''fw_version''] w1)"

definition update_device_state :: "env \<Rightarrow> string \<Rightarrow> UpdateStateEnum \<Rightarrow> world \<Rightarrow> world" where
  "update_device_state E dev_id st w =
     (let (device, w1) = get_device E dev_id w
      in save_device dev_id (device\<lparr>last_state := st\<rparr>) [''last_state''] w1)"

definition update_log_complete :: "env \<Rightarrow> string \<Rightarrow> bool \<Rightarrow> world \<Rightarrow> world" where
  "update_log_complete E dev_id b w =
     (let (device, w1) = get_device E dev_id w
      in save_device dev_id (device\<lparr>log_complete := b\<rparr>) [''log_complete''] w1)"

section \<open>\<open>UpdateManager\<close>: subscribers and poll time\<close>

text \<open>\<open>device_log_subscriptions.get(self.dev_id, [])\<close> and the setter of the property.\<close>

definition log_subscribers :: "string \<Rightarrow> world \<Rightarrow> callback list" where
  "log_subscribers dev_id w =
     (case device_log_subscriptions w dev_id of None \<Rightarrow> [] | Some subscribers \<Rightarrow> subscribers)"

definition set_log_subscribers :: "string \<Rightarrow> callback list \<Rightarrow> world \<Rightarrow> world" where
  "set_log_subscribers dev_id subscribers w =
     w\<lparr>device_log_subscriptions := (device_log_subscriptions w)(dev_id \<mapsto> subscribers)\<rparr>"

text \<open>\<open>publish_log\<close>: every subscriber in the list is called with the payload, in order.\<close>

definition publish_log :: "string \<Rightarrow> string option \<Rightarrow> world \<Rightarrow> world" where
  "publish_log dev_id log_data w =
     w\<lparr>events := events w @ map (\<lambda>cb. Deliver cb log_data) (log_subscribers dev_id w)\<rparr>"

definition poll_time :: "env \<Rightarrow> string \<Rightarrow> world \<Rightarrow> string" where
  "poll_time E dev_id w =
     (case device_poll_time w dev_id of None \<Rightarrow> POLL_TIME E | Some t \<Rightarrow> t)"

definition set_poll_time :: "env \<Rightarrow> string \<Rightarrow> string \<Rightarrow> world \<Rightarrow> world" where
  "set_poll_time E dev_id t w =
     (if t \<noteq> POLL_TIME E then w\<lparr>device_poll_time := (device_poll_time w)(dev_id \<mapsto> t)\<rparr>
      else if dev_id \<in> dom (device_poll_time w)
           then w\<lparr>device_poll_time := (device_poll_time w)(dev_id := None)\<rparr>
      else w)"

subsection \<open>\<open>datetime.strptime(..., "%H:%M:%S")\<close>\<close>

datatype error = AssertionError | AttributeError | ValueError | CancelledError | Exception string

text \<open>A character class \<open>[...]\<close>, written as the string of its members.\<close>

definition char_in :: "char \<Rightarrow> string \<Rightarrow> bool" where
  "char_in c cls = (c \<in> set cls)"

definition is_digit :: "char \<Rightarrow> bool" where
  "is_digit c = char_in c ''0123456789''"

definition digit_val :: "char \<Rightarrow> nat" where
  "digit_val c = of_char c - 48"

text \<open>
  CPython turns the format into the regular expression
  \<open>(?P<H>2[0-3]|[0-1]\d|\d):(?P<M>[0-5]\d|\d):(?P<S>6[0-1]|[0-5]\d|\d)\<close>, matches it at
  the start of the string, raises \<open>ValueError\<close> when nothing matches or text remains
  after the match, and builds a \<open>datetime\<close>, which refuses a second above 59. Each
  group is the list of its ways to match, first alternative first, with the text left;
  the match found is the first of the whole expression. Strings are ASCII here: \<open>\d\<close>
  is one of the ten digits.
\<close>

definition re_one_digit :: "string \<Rightarrow> (nat \<times> string) list" where
  "re_one_digit s =
     (case s of
        a # r \<Rightarrow> if is_digit a then [(digit_val a, r)] else []
      | [] \<Rightarrow> [])"

definition re_two_digits :: "string \<Rightarrow> string \<Rightarrow> string \<Rightarrow> (nat \<times> string) list" where
  "re_two_digits A B s =
     (case s of
        a # b # r \<Rightarrow>
          if char_in a A \<and> char_in b B then [(10 * digit_val a + digit_val b, r)] else []
      | _ \<Rightarrow> [])"

definition re_H :: "string \<Rightarrow> (nat \<times> string) list" where
  "re_H s = re_two_digits ''2'' ''0123'' s @ re_two_digits ''01'' ''0123456789'' s @ re_one_digit s"

definition re_M :: "string \<Rightarrow> (nat \<times> string) list" where
  "re_M s = re_two_digits ''012345'' ''0123456789'' s @ re_one_digit s"

definition re_S :: "string \<Rightarrow> (nat \<times> string) list" where
  "re_S s = re_two_digits ''6'' ''01'' s @ re_two_digits ''012345'' ''0123456789'' s @ re_one_digit s"

definition re_colon :: "string \<Rightarrow> string list" where
  "re_colon s = (case s of c # r \<Rightarrow> if c = CHR '':'' then [r] else [] | [] \<Rightarrow> [])"

definition re_HMS :: "string \<Rightarrow> (nat \<times> nat \<times> nat \<times> string) list" where
  "re_HMS s =
     List.bind (re_H s) (\<lambda>(h, r1).
     List.bind (re_colon r1) (\<lambda>r2.
     List.bind (re_M r2) (\<lambda>(m, r3).
     List.bind (re_colon r3) (\<lambda>r4.
     List.bind (re_S r4) (\<lambda>(sec, r5). [(h, m, sec, r5)])))))"

definition strptime_HMS :: "string \<Rightarrow> error + (nat \<times> nat \<times> nat)" where
  "strptime_HMS s =
     (case re_HMS s of
        [] \<Rightarrow> Inl ValueError
      | (h, m, sec, rest) # _ \<Rightarrow>
          if rest \<noteq> [] then Inl ValueError
          else if 59 < sec then Inl ValueError
          else Inr (h, m, sec))"

definition poll_seconds :: "env \<Rightarrow> string \<Rightarrow> world \<Rightarrow> error + nat" where
  "poll_seconds E dev_id w =
     (case strptime_HMS (poll_time E dev_id w) of
        Inl e \<Rightarrow> Inl e
      | Inr (h, m, sec) \<Rightarrow> Inr (h * 3600 + m * 60 + sec))"

section \<open>\<open>DeviceUpdateManager\<close>: the log\<close>

text \<open>
  \<open>re.findall(r"Downloaded (\d+)%", log_data)\<close>. A match at the start of \<open>s\<close> is the
  literal, one or more digits and the percent sign; \<open>\d+\<close> takes every digit there
  is, and giving digits back cannot help, since a digit is not a percent sign. The scan
  goes left to right: after a match it resumes behind the match, otherwise one character
  further.
\<close>

definition match_downloaded :: "string \<Rightarrow> (string \<times> string) option" where
  "match_downloaded s =
     (if take 11 s = ''Downloaded '' then
        (let ds = takeWhile is_digit (drop 11 s);
             rest = dropWhile is_digit (drop 11 s)
         in case rest of
              [] \<Rightarrow> None
            | c # rest' \<Rightarrow> if ds \<noteq> [] \<and> c = CHR ''%'' then Some (ds, rest') else None)
      else None)"

function findall_downloaded :: "string \<Rightarrow> string list" where
  "findall_downloaded [] = []"
| "findall_downloaded (c # cs) =
     (case match_downloaded (c # cs) of
        Some (ds, rest) \<Rightarrow> ds # findall_downloaded rest
      | None \<Rightarrow> findall_downloaded cs)"
  by pat_completeness auto
termination
proof (relation "measure length")
  fix c cs x ds rest
  assume m: "match_downloaded (c # cs) = Some x" and x: "(ds, rest) = x"
  have "length (dropWhile is_digit (drop 11 (c # cs))) \<le> length (c # cs)"
    by (rule order_trans [OF length_dropWhile_le]) simp
  with m x show "(rest, c # cs) \<in> measure length"
    by (auto simp: match_downloaded_def Let_def split: if_splits list.splits)
qed simp_all

declare findall_downloaded.simps [simp del]

text \<open>
  The pattern in the words of the specification, to compare the scanner with: an
  occurrence of \<open>Downloaded <N>%\<close> is the literal, a non-empty run of digits and the
  percent sign, anywhere in the line.
\<close>

definition spec_occurrence :: "string \<Rightarrow> string" where
  "spec_occurrence ds = ''Downloaded '' @ ds @ ''%''"

definition spec_occurs :: "string \<Rightarrow> bool" where
  "spec_occurs s =
     (\<exists>pre ds post. s = pre @ spec_occurrence ds @ post \<and> ds \<noteq> [] \<and> list_all is_digit ds)"

definition startswith :: "string \<Rightarrow> string \<Rightarrow> bool" where
  "startswith s prefix = (take (length prefix) s = prefix)"

definition newline :: string where
  "newline = [CHR 0x0A]"

text \<open>
  \<open>update_log\<close>. After lines 290-291 the buffer is a string (\<open>None\<close> has become the
  empty one); \<open>buf\<close> is \<open>device.last_log\<close> from there on.
\<close>

definition update_log :: "env \<Rightarrow> string \<Rightarrow> string option \<Rightarrow> world \<Rightarrow> world" where
  "update_log E dev_id log_data w =
     (case log_data of
        None \<Rightarrow> w
      | Some line \<Rightarrow>
          (let (device, w1) = get_device E dev_id w;
               buf = (case last_log device of None \<Rightarrow> [] | Some t \<Rightarrow> t);
               matches = findall_downloaded line;
               device = (if matches \<noteq> [] then device\<lparr>progress := PyStr (last matches)\<rparr> else device);
               (buf, w2) =
                 (if startswith line ''Installing Update Chunk Artifacts.''
                  then ([], publish_log dev_id None w1)
                  else (buf, w1));
               (buf, w3) =
                 (if line \<noteq> ''Skipped Update.''
                  then (buf @ line @ newline, publish_log dev_id (Some (line @ newline)) w2)
                  else (buf, w2))
           in save_device dev_id (device\<lparr>last_log := Some buf\<rparr>) [''progress'', ''last_log''] w3))"

definition clear_log :: "env \<Rightarrow> string \<Rightarrow> world \<Rightarrow> world" where
  "clear_log E dev_id w =
     (let (device, w1) = get_device E dev_id w;
          w2 = save_device dev_id (device\<lparr>last_log := Some []\<rparr>) [''last_log''] w1
      in publish_log dev_id None w2)"

text \<open>Python's \<open>int(...)\<close> on the attribute, for the values the manager stores.\<close>

definition decimal :: "string \<Rightarrow> nat" where
  "decimal ds = foldl (\<lambda>n c. 10 * n + digit_val c) 0 ds"

definition py_int :: "pyval \<Rightarrow> int option" where
  "py_int v =
     (case v of
        PyNone \<Rightarrow> None
      | PyInt n \<Rightarrow> Some n
      | PyStr ds \<Rightarrow> if ds \<noteq> [] \<and> list_all is_digit ds then Some (int (decimal ds)) else None)"

section \<open>\<open>DeviceUpdateManager\<close>: the update decision\<close>

definition get_rollout :: "env \<Rightarrow> string \<Rightarrow> world \<Rightarrow> Rollout option \<times> world" where
  "get_rollout E dev_id w =
     (let (device, w1) = get_device E dev_id w
      in if update_mode device = ROLLOUT
         then (rollout_first E (devices w1) (uuid device), w1)
         else (None, w1))"

definition get_firmware :: "env \<Rightarrow> string \<Rightarrow> world \<Rightarrow> (error + Firmware option) \<times> world" where
  "get_firmware E dev_id w =
     (let (device, w1) = get_device E dev_id w
      in if update_mode device = ROLLOUT then
           (let (rollout, w2) = get_rollout E dev_id w1
            in case rollout of
                 None \<Rightarrow> (Inr None, w2)
               | Some r \<Rightarrow> if paused r then (Inr None, w2) else (Inr (Some (firmware r)), w2))
         else if update_mode device = ASSIGNED then (Inr (assigned_firmware device), w1)
         else if update_mode device = LATEST
           then (Inr (firmware_latest E (devices w1) (Some device)), w1)
         else if update_mode device = PINNED then (Inr None, w1)
         else (Inl AssertionError, w1))"

definition get_update ::
  "env \<Rightarrow> string \<Rightarrow> world \<Rightarrow> (error + HandlingType \<times> Firmware option) \<times> world" where
  "get_update E dev_id w =
     (let (device, w1) = get_device E dev_id w
      in case get_firmware E dev_id w1 of
           (Inl e, w2) \<Rightarrow> (Inl e, w2)
         | (Inr None, w2) \<Rightarrow> (Inr (SKIP, None), set_poll_time E dev_id (POLL_TIME E) w2)
         | (Inr (Some fw), w2) \<Rightarrow>
             if Some (version fw) = fw_version device \<and> \<not> force_update device
               then (Inr (SKIP, Some fw), set_poll_time E dev_id (POLL_TIME E) w2)
             else if last_state device = ERROR \<and> \<not> force_update device
               then (Inr (SKIP, Some fw), set_poll_time E dev_id (POLL_TIME E) w2)
             else
               (let w3 = set_poll_time E dev_id (POLL_TIME_UPDATING E) w2;
                    w4 = (if log_complete device
                          then clear_log E dev_id (update_log_complete E dev_id False w3)
                          else w3)
                in (Inr (FORCED, Some fw), w4)))"

text \<open>
  The candidate firmware in the words of the specification (section 4.4), to compare
  \<open>get_firmware\<close> with: in ROLLOUT mode the firmware of the device's rollout unless
  there is none or it is paused, in ASSIGNED mode the assigned firmware, in LATEST mode
  the latest compatible firmware, in PINNED mode none.
\<close>

definition spec_candidate :: "env \<Rightarrow> Device \<Rightarrow> Device list \<Rightarrow> Firmware option" where
  "spec_candidate E device rows =
     (case update_mode device of
        ROLLOUT \<Rightarrow>
          (case rollout_first E rows (uuid device) of
             None \<Rightarrow> None
           | Some r \<Rightarrow> if paused r then None else Some (firmware r))
      | ASSIGNED \<Rightarrow> assigned_firmware device
      | LATEST \<Rightarrow> firmware_latest E rows (Some device)
      | PINNED \<Rightarrow> None)"

section \<open>\<open>UnknownUpdateManager\<close> and the choice of a manager\<close>

datatype manager = UnknownUpdateManager string | DeviceUpdateManager string

fun dev_id_of :: "manager \<Rightarrow> string" where
  "dev_id_of (UnknownUpdateManager dev_id) = dev_id"
| "dev_id_of (DeviceUpdateManager dev_id) = dev_id"

text \<open>
  The constructors. \<open>UnknownUpdateManager.__init__\<close> assigns \<open>self.poll_time\<close>, which
  writes the shared table; \<open>DeviceUpdateManager\<close> only keeps the identity.
\<close>

definition new_UnknownUpdateManager :: "env \<Rightarrow> string \<Rightarrow> world \<Rightarrow> manager \<times> world" where
  "new_UnknownUpdateManager E dev_id w =
     (UnknownUpdateManager dev_id, set_poll_time E dev_id (POLL_TIME_UPDATING E) w)"

definition get_update_manager :: "env \<Rightarrow> string \<Rightarrow> world \<Rightarrow> manager \<times> world" where
  "get_update_manager E dev_id w =
     (if dev_id = ''unknown'' then new_UnknownUpdateManager E ''unknown'' w
      else (DeviceUpdateManager dev_id, w\<lparr>events := events w @ [Telemetry (length (devices w))]\<rparr>))"

text \<open>
  The methods, dispatched on the class. \<open>UnknownUpdateManager\<close> inherits
  \<open>get_device\<close> from the base class, which returns \<open>None\<close>.
\<close>

fun manager_get_device :: "env \<Rightarrow> manager \<Rightarrow> world \<Rightarrow> Device option \<times> world" where
  "manager_get_device E (UnknownUpdateManager dev_id) w = (None, w)"
| "manager_get_device E (DeviceUpdateManager dev_id) w =
     (let (device, w1) = get_device E dev_id w in (Some device, w1))"

fun manager_get_update ::
  "env \<Rightarrow> manager \<Rightarrow> world \<Rightarrow> (error + HandlingType \<times> Firmware option) \<times> world" where
  "manager_get_update E (UnknownUpdateManager dev_id) w =
     (let (device, w1) = manager_get_device E (UnknownUpdateManager dev_id) w;
          fw = firmware_latest E (devices w1) device
      in (Inr (FORCED, fw), w1))"
| "manager_get_update E (DeviceUpdateManager dev_id) w = get_update E dev_id w"

fun manager_update_log :: "env \<Rightarrow> manager \<Rightarrow> string option \<Rightarrow> world \<Rightarrow> world" where
  "manager_update_log E (UnknownUpdateManager dev_id) log_data w = w"
| "manager_update_log E (DeviceUpdateManager dev_id) log_data w = update_log E dev_id log_data w"

section \<open>\<open>subscribe_log\<close>\<close>

text \<open>
  The context manager in two halves and as a whole. Entering runs the generator to its
  \<open>yield\<close>: read the device, append the callback to the list, store the list, call the
  callback with \<open>device.last_log\<close> (an \<open>AttributeError\<close> when there is no device).
  All of this stands before the \<open>try\<close>: when the first call of the callback raises, or
  the task is cancelled while it is awaited, the exception leaves \<open>subscribe_log\<close> at
  once, the body of the \<open>with\<close> block does not run and the \<open>finally\<close> clause does
  not either. What the first call does is the parameter \<open>first\<close>.
  The body of the \<open>with\<close> block ends by returning, by the task's cancellation or by
  another exception; the \<open>finally\<close> clause then removes the first occurrence of the
  callback (\<open>list.remove\<close>, a \<open>ValueError\<close> when there is none), cancellation is
  caught, any other exception goes on.
\<close>

datatype call_outcome = CallReturned | CallCancelled | CallRaised error

datatype scope_exit = BodyReturned | BodyCancelled | BodyRaised error

definition subscribe_log_enter ::
  "env \<Rightarrow> manager \<Rightarrow> callback \<Rightarrow> call_outcome \<Rightarrow> world \<Rightarrow> (error + unit) \<times> world" where
  "subscribe_log_enter E m cb first w =
     (let (device, w1) = manager_get_device E m w;
          subscribers = log_subscribers (dev_id_of m) w1 @ [cb];
          w2 = set_log_subscribers (dev_id_of m) subscribers w1
      in case device of
           None \<Rightarrow> (Inl AttributeError, w2)
         | Some d \<Rightarrow>
             (let w3 = w2\<lparr>events := events w2 @ [Deliver cb (last_log d)]\<rparr>
              in case first of
                   CallReturned \<Rightarrow> (Inr (), w3)
                 | CallCancelled \<Rightarrow> (Inl CancelledError, w3)
                 | CallRaised e \<Rightarrow> (Inl e, w3)))"

definition subscribe_log_exit :: "manager \<Rightarrow> callback \<Rightarrow> scope_exit \<Rightarrow> world \<Rightarrow> (error + unit) \<times> world" where
  "subscribe_log_exit m cb how w =
     (let subscribers = log_subscribers (dev_id_of m) w
      in if cb \<notin> set subscribers then (Inl ValueError, w)
         else
           (let w1 = set_log_subscribers (dev_id_of m) (remove1 cb subscribers) w
            in case how of
                 BodyReturned \<Rightarrow> (Inr (), w1)
               | BodyCancelled \<Rightarrow> (Inr (), w1)
               | BodyRaised e \<Rightarrow> (Inl e, w1)))"

definition subscribe_log ::
  "env \<Rightarrow> manager \<Rightarrow> callback \<Rightarrow> call_outcome \<Rightarrow> (world \<Rightarrow> scope_exit \<times> world) \<Rightarrow> world \<Rightarrow>
   (error + unit) \<times> world" where
  "subscribe_log E m cb first body w =
     (case subscribe_log_enter E m cb first w of
        (Inl e, w1) \<Rightarrow> (Inl e, w1)
      | (Inr u, w1) \<Rightarrow> (let (how, w2) = body w1 in subscribe_log_exit m cb how w2))"

section \<open>A configuration and two states for examples\<close>

text \<open>
  Intervals of one minute (idle) and five seconds (updating); a firmware 2.0 that is the
  latest for every device; no rollout. \<open>empty_world\<close> is the state of a fresh process
  on an empty database; \<open>example_world\<close> holds one device, running firmware 1.0, whose
  last log is complete, cached, with two subscribers to its log.
\<close>

definition example_latest :: "Device list \<Rightarrow> Device option \<Rightarrow> Firmware option" where
  "example_latest rows device = Some \<lparr>version = ''2.0''\<rparr>"

definition example_rollout :: "Device list \<Rightarrow> string \<Rightarrow> Rollout option" where
  "example_rollout rows dev_id = None"

definition example_defaults :: Device where
  "example_defaults =
     \<lparr>uuid = [], name = None, hardware = \<lparr>model = ''default'', revision = ''default''\<rparr>,
      fw_version = None, last_state = UNKNOWN, update_mode = LATEST, assigned_firmware = None,
      force_update = False, last_seen = None, last_ip = None, last_ipv6 = None,
      progress = PyNone, last_log = None, log_complete = False\<rparr>"

definition example_env :: env where
  "example_env =
     \<lparr>POLL_TIME = ''00:01:00'', POLL_TIME_UPDATING = ''00:00:05'',
      device_defaults = example_defaults,
      firmware_latest = example_latest, rollout_first = example_rollout\<rparr>"

definition empty_world :: world where
  "empty_world =
     \<lparr>devices = [], hardwares = {}, cache = Map.empty, now = 0, hardware_default = None,
      device_log_subscriptions = Map.empty, device_poll_time = Map.empty, events = []\<rparr>"

definition example_device :: Device where
  "example_device =
     example_defaults\<lparr>uuid := ''dev1'', fw_version := Some ''1.0'', last_state := RUNNING,
       progress := PyInt 100, last_log := Some ''Installed.'', log_complete := True\<rparr>"

definition example_world :: world where
  "example_world =
     \<lparr>devices = [example_device],
      hardwares = {\<lparr>model = ''default'', revision = ''default''\<rparr>},
      cache = [''dev1'' \<mapsto> (example_device, 600)], now = 0,
      hardware_default = Some \<lparr>model = ''default'', revision = ''default''\<rparr>,
      device_log_subscriptions = [''dev1'' \<mapsto> [7, 8]],
      device_poll_time = Map.empty, events = []\<rparr>"

text \<open>
  The body of a \<open>with subscribe_log(...)\<close> block during which the device logs a line and
  which ends by the cancellation of its task.
\<close>

definition example_body :: "world \<Rightarrow> scope_exit \<times> world" where
  "example_body w = (BodyCancelled, update_log example_env ''dev1'' (Some ''Rebooting'') w)"

section \<open>Basic facts about the operations\<close>

subsection \<open>The cache\<close>

lemma get_device_hit: "cache_get k w = Some d \<Longrightarrow> get_device E k w = (d, w)"
  by (simp add: get_device_def)

lemma get_device_cached: "get_device E k w = (d, w1) \<Longrightarrow> cache_get k w1 = Some d"
  by (auto simp: get_device_def cache_get_def cache_put_def
      split: option.splits prod.splits if_splits)

lemma get_device_frame:
  assumes "get_device E k w = (d, w1)"
  shows "events w1 = events w"
    and "device_log_subscriptions w1 = device_log_subscriptions w"
    and "device_poll_time w1 = device_poll_time w"
    and "now w1 = now w"
  using assms
  by (auto simp: get_device_def get_device_body_def device_get_or_create_def
      hardware_get_or_create_def cache_put_def Let_def split: option.splits prod.splits)

text \<open>\<open>save_device\<close> leaves every entry of the decorator's cache as it was.\<close>

lemma cache_get_save_device: "cache_get k' (save_device k d fs w) = cache_get k' w"
  by (auto simp: save_device_def device_save_def cache_get_def split: option.splits)

lemma save_device_fields:
  "events (save_device k d fs w) = events w @ [CacheSet k d 600, DbSave d fs]"
  "device_log_subscriptions (save_device k d fs w) = device_log_subscriptions w"
  "device_poll_time (save_device k d fs w) = device_poll_time w"
  "now (save_device k d fs w) = now w"
  "hardwares (save_device k d fs w) = hardwares w"
  "hardware_default (save_device k d fs w) = hardware_default w"
  "cache (save_device k d fs w) = cache w"
  "devices (save_device k d fs w) =
     map (\<lambda>row. if uuid row = uuid d then copy_fields d fs row else row) (devices w)"
  by (simp_all add: save_device_def device_save_def)

lemma copy_progress_last_log:
  "copy_fields d [''progress'', ''last_log''] row =
     row\<lparr>progress := progress d, last_log := last_log d\<rparr>"
  by (simp add: copy_fields_def copy_field_def)

lemma copy_last_log: "copy_fields d [''last_log''] row = row\<lparr>last_log := last_log d\<rparr>"
  by (simp add: copy_fields_def copy_field_def)


subsection \<open>Rows of the device table\<close>

lemma find_device_map:
  assumes "\<And>row. uuid (f row) = uuid row"
  shows "find_device key (map f rows) = map_option f (find_device key rows)"
  using assms by (induction rows) (simp_all add: find_device_def)

lemma find_device_uuid: "find_device key rows = Some row \<Longrightarrow> uuid row = key"
  by (induction rows) (auto simp: find_device_def split: if_splits)

lemma find_device_append:
  "find_device key (rows @ rows') =
     (case find_device key rows of None \<Rightarrow> find_device key rows' | Some row \<Rightarrow> Some row)"
  by (induction rows) (simp_all add: find_device_def)

lemma get_device_miss_row:
  assumes "cache_get k w = None" and "get_device E k w = (d, w1)"
  shows "find_device k (devices w1) = Some d \<and> uuid d = k"
proof (cases "find_device k (devices w)")
  case None
  with assms show ?thesis
    by (auto simp: get_device_def get_device_body_def device_get_or_create_def
        hardware_get_or_create_def cache_put_def Let_def find_device_append
        split: option.splits prod.splits)
       (simp_all add: find_device_def)
next
  case (Some row)
  with assms have "d = row" "devices w1 = devices w"
    by (auto simp: get_device_def get_device_body_def device_get_or_create_def
        hardware_get_or_create_def cache_put_def Let_def split: option.splits prod.splits)
  with Some find_device_uuid [OF Some] show ?thesis by simp
qed



subsection \<open>Subscribers and poll time\<close>

lemma log_subscribers_cong:
  "device_log_subscriptions w' = device_log_subscriptions w \<Longrightarrow>
   log_subscribers k w' = log_subscribers k w"
  by (simp add: log_subscribers_def)

lemma log_subscribers_set: "log_subscribers k (set_log_subscribers k subs w) = subs"
  by (simp add: log_subscribers_def set_log_subscribers_def)

lemma set_log_subscribers_frame:
  "events (set_log_subscribers k subs w) = events w"
  "devices (set_log_subscribers k subs w) = devices w"
  "cache_get k' (set_log_subscribers k subs w) = cache_get k' w"
  by (auto simp: set_log_subscribers_def cache_get_def split: option.splits)

lemma publish_log_frame:
  "cache_get k' (publish_log k p w) = cache_get k' w"
  "devices (publish_log k p w) = devices w"
  "device_poll_time (publish_log k p w) = device_poll_time w"
  "device_log_subscriptions (publish_log k p w) = device_log_subscriptions w"
  "events (publish_log k p w) = events w @ map (\<lambda>cb. Deliver cb p) (log_subscribers k w)"
  by (auto simp: publish_log_def cache_get_def split: option.splits)


lemma poll_time_set: "poll_time E k (set_poll_time E k t w) = t"
  by (auto simp: poll_time_def set_poll_time_def domIff)

lemma set_poll_time_frame:
  "cache_get k' (set_poll_time E k t w) = cache_get k' w"
  "events (set_poll_time E k t w) = events w"
  "devices (set_poll_time E k t w) = devices w"
  "device_log_subscriptions (set_poll_time E k t w) = device_log_subscriptions w"
  by (auto simp: set_poll_time_def cache_get_def split: option.splits)

subsection \<open>Operations on a cached device\<close>

text \<open>
  \<open>get_firmware\<close> refines the candidate of the specification: it never fails its
  assertion, and it leaves the state alone once the device is cached.
\<close>

lemma get_firmware_hit:
  "cache_get k w = Some device \<Longrightarrow>
   get_firmware E k w = (Inr (spec_candidate E device (devices w)), w)"
  by (cases "update_mode device")
     (simp_all add: get_firmware_def get_rollout_def get_device_hit spec_candidate_def
        split: option.splits)

lemma update_log_complete_hit:
  "cache_get k w = Some d \<Longrightarrow>
   update_log_complete E k b w = save_device k (d\<lparr>log_complete := b\<rparr>) [''log_complete''] w"
  by (simp add: update_log_complete_def get_device_hit)

lemma clear_log_hit:
  "cache_get k w = Some d \<Longrightarrow>
   clear_log E k w =
     publish_log k None (save_device k (d\<lparr>last_log := Some []\<rparr>) [''last_log''] w)"
  by (simp add: clear_log_def get_device_hit)

lemma get_update_hit:
  assumes "cache_get k w = Some device"
  shows "get_update E k w =
     (case spec_candidate E device (devices w) of
        None \<Rightarrow> (Inr (SKIP, None), set_poll_time E k (POLL_TIME E) w)
      | Some fw \<Rightarrow>
          if (Some (version fw) = fw_version device \<or> last_state device = ERROR) \<and>
             \<not> force_update device
          then (Inr (SKIP, Some fw), set_poll_time E k (POLL_TIME E) w)
          else (Inr (FORCED, Some fw),
                if log_complete device
                then publish_log k None
                       (save_device k (device\<lparr>last_log := Some []\<rparr>)
                          [''last_log'']
                          (save_device k (device\<lparr>log_complete := False\<rparr>) [''log_complete'']
                             (set_poll_time E k (POLL_TIME_UPDATING E) w)))
                else set_poll_time E k (POLL_TIME_UPDATING E) w))"
  using assms
  by (auto simp: get_update_def get_device_hit get_firmware_hit Let_def
      update_log_complete_hit set_poll_time_frame clear_log_hit cache_get_save_device
      split: option.splits)

lemma get_update_via_cache:
  assumes "get_device E k w = (device, w1)"
  shows "get_update E k w = get_update E k w1"
proof -
  have "cache_get k w1 = Some device" using assms by (rule get_device_cached)
  then have "get_device E k w1 = (device, w1)" by (rule get_device_hit)
  then show ?thesis using assms by (simp add: get_update_def)
qed

subsection \<open>The log line scanner\<close>

lemma match_downloaded_digits:
  "match_downloaded s = Some (ds, rest) \<Longrightarrow> ds \<noteq> [] \<and> list_all is_digit ds"
  by (auto simp: match_downloaded_def Let_def list_all_iff split: if_splits list.splits
      dest: set_takeWhileD)

lemma findall_downloaded_digits:
  "ds \<in> set (findall_downloaded s) \<Longrightarrow> ds \<noteq> [] \<and> list_all is_digit ds"
proof (induction s rule: findall_downloaded.induct)
  case 1
  then show ?case by (simp add: findall_downloaded.simps)
next
  case (2 c cs)
  then show ?case
    by (cases "match_downloaded (c # cs)")
       (auto simp: findall_downloaded.simps dest: match_downloaded_digits)
qed

text \<open>
  The scanner finds the occurrences of the specification: a match at the start of a string
  is an occurrence there, no occurrence starts inside a match (only its first character is
  a \<open>D\<close>), so the list found ends with the digits of the last occurrence and is empty
  exactly when there is none.
\<close>

lemma match_downloaded_iff:
  "match_downloaded s = Some (ds, rest) \<longleftrightarrow>
     s = spec_occurrence ds @ rest \<and> ds \<noteq> [] \<and> list_all is_digit ds"
proof
  assume m: "match_downloaded s = Some (ds, rest)"
  then have t: "take 11 s = ''Downloaded ''"
    by (simp add: match_downloaded_def split: if_splits)
  from m t have d: "dropWhile is_digit (drop 11 s) = CHR ''%'' # rest"
    and ds: "ds = takeWhile is_digit (drop 11 s)" and ne: "ds \<noteq> []"
    by (auto simp: match_downloaded_def Let_def split: list.splits if_splits)
  have "drop 11 s = ds @ CHR ''%'' # rest"
    using takeWhile_dropWhile_id [of is_digit "drop 11 s"] d ds by simp
  then have "s = spec_occurrence ds @ rest"
    using append_take_drop_id [of 11 s] t by (simp add: spec_occurrence_def)
  moreover have "list_all is_digit ds"
    unfolding ds list_all_iff by (auto dest: set_takeWhileD)
  ultimately show "s = spec_occurrence ds @ rest \<and> ds \<noteq> [] \<and> list_all is_digit ds"
    using ne by simp
next
  assume a: "s = spec_occurrence ds @ rest \<and> ds \<noteq> [] \<and> list_all is_digit ds"
  have p: "\<not> is_digit CHR ''%''" by (simp add: is_digit_def char_in_def)
  have tw: "takeWhile is_digit (ds @ CHR ''%'' # rest) = ds"
    using a p by (simp add: list_all_iff)
  have dw: "dropWhile is_digit (ds @ CHR ''%'' # rest) = CHR ''%'' # rest"
    using a p by (simp add: list_all_iff)
  show "match_downloaded s = Some (ds, rest)"
    using a tw dw by (simp add: match_downloaded_def spec_occurrence_def)
qed

lemma spec_occurrence_shape:
  "spec_occurrence ds = CHR ''D'' # ''ownloaded '' @ ds @ ''%''"
  "spec_occurrence ds \<noteq> []"
  by (simp_all add: spec_occurrence_def)

lemma no_D_inside:
  assumes "list_all is_digit ds" and "0 < j" and "j < length (spec_occurrence ds)"
  shows "spec_occurrence ds ! j \<noteq> CHR ''D''"
proof -
  obtain i where j: "j = Suc i" using assms(2) by (cases j) auto
  define t where "t = ''ownloaded '' @ ds @ ''%''"
  have sh: "spec_occurrence ds = CHR ''D'' # t"
    unfolding t_def by (rule spec_occurrence_shape)
  have i: "i < length t" using assms(3) unfolding sh j by simp
  have e: "spec_occurrence ds ! j = t ! i" unfolding sh j by simp
  have mem: "t ! i \<in> set t" using i by (rule nth_mem)
  have nd: "\<not> is_digit CHR ''D''" by (simp add: is_digit_def char_in_def)
  have "CHR ''D'' \<notin> set ds"
  proof
    assume "CHR ''D'' \<in> set ds"
    with assms(1) have "is_digit CHR ''D''" unfolding list_all_iff by (rule bspec)
    with nd show False by (rule notE)
  qed
  then have "CHR ''D'' \<notin> set t" unfolding t_def by simp
  with mem show ?thesis unfolding e by auto
qed

lemma append_split:
  "pre @ x = m @ rest \<Longrightarrow> length m \<le> length pre \<Longrightarrow> \<exists>us. pre = m @ us \<and> rest = us @ x"
proof (induction m arbitrary: pre)
  case Nil
  then show ?case by simp
next
  case (Cons a m)
  then obtain pre' where p: "pre = a # pre'" by (cases pre) auto
  with Cons.prems have "pre' @ x = m @ rest" "length m \<le> length pre'" by simp_all
  from Cons.IH [OF this] p show ?case by simp
qed

lemma findall_occurrence:
  assumes ne: "ds \<noteq> []" and dg: "list_all is_digit ds"
  shows "\<exists>xs. findall_downloaded (pre @ spec_occurrence ds @ post) =
               xs @ ds # findall_downloaded post"
proof (induction "length pre" arbitrary: pre rule: less_induct)
  case less
  define s where "s = pre @ spec_occurrence ds @ post"
  show ?case
  proof (cases pre)
    case Nil
    then have s: "s = spec_occurrence ds @ post" by (simp add: s_def)
    then have m: "match_downloaded s = Some (ds, post)"
      using ne dg by (simp add: match_downloaded_iff)
    have cs: "s = CHR ''D'' # (''ownloaded '' @ ds @ ''%'' @ post)"
      unfolding s spec_occurrence_shape(1) by simp
    have "findall_downloaded s = ds # findall_downloaded post"
      using m unfolding cs by (simp add: findall_downloaded.simps)
    then show ?thesis unfolding s_def by simp
  next
    case (Cons c pre')
    then have cs: "s = c # (pre' @ spec_occurrence ds @ post)" by (simp add: s_def)
    show ?thesis
    proof (cases "match_downloaded s")
      case None
      have "length pre' < length pre" using Cons by simp
      from less [OF this] obtain xs where
        "findall_downloaded (pre' @ spec_occurrence ds @ post) =
           xs @ ds # findall_downloaded post" by blast
      then have "findall_downloaded s = xs @ ds # findall_downloaded post"
        using None unfolding cs by (simp add: findall_downloaded.simps)
      then show ?thesis unfolding s_def by blast
    next
      case (Some a)
      obtain ds' rest where a: "a = (ds', rest)" by (cases a)
      from Some a have M: "s = spec_occurrence ds' @ rest" and dg': "list_all is_digit ds'"
        by (simp_all add: match_downloaded_iff)
      have le: "length (spec_occurrence ds') \<le> length pre"
      proof (rule ccontr)
        assume "\<not> length (spec_occurrence ds') \<le> length pre"
        then have lt: "length pre < length (spec_occurrence ds')" by simp
        have pos: "0 < length pre" using Cons by simp
        have "s ! length pre = CHR ''D''"
          unfolding s_def by (simp add: nth_append spec_occurrence_shape(1))
        moreover have "s ! length pre = spec_occurrence ds' ! length pre"
          unfolding M using lt by (simp add: nth_append)
        ultimately show False using no_D_inside [OF dg' pos lt] by simp
      qed
      have "pre @ (spec_occurrence ds @ post) = spec_occurrence ds' @ rest"
        using M by (simp add: s_def)
      from append_split [OF this le]
      obtain us where us: "pre = spec_occurrence ds' @ us"
        and rest: "rest = us @ spec_occurrence ds @ post"
        by blast
      have "length us < length pre"
        unfolding us using spec_occurrence_shape(2) [of ds'] by simp
      from less [OF this] obtain xs where
        "findall_downloaded rest = xs @ ds # findall_downloaded post"
        unfolding rest by blast
      then have "findall_downloaded s = (ds' # xs) @ ds # findall_downloaded post"
        using Some a unfolding cs by (simp add: findall_downloaded.simps)
      then show ?thesis unfolding s_def by blast
    qed
  qed
qed

lemma findall_nonempty_occurs:
  "findall_downloaded s \<noteq> [] \<Longrightarrow> spec_occurs s"
proof (induction s rule: findall_downloaded.induct)
  case 1
  then show ?case by (simp add: findall_downloaded.simps)
next
  case (2 c cs)
  show ?case
  proof (cases "match_downloaded (c # cs)")
    case None
    with 2 have "spec_occurs cs" by (simp add: findall_downloaded.simps)
    then obtain pre ds post where
      "cs = pre @ spec_occurrence ds @ post" "ds \<noteq> []" "list_all is_digit ds"
      unfolding spec_occurs_def by blast
    then have "c # cs = (c # pre) @ spec_occurrence ds @ post \<and> ds \<noteq> [] \<and> list_all is_digit ds"
      by simp
    then show ?thesis unfolding spec_occurs_def by blast
  next
    case (Some a)
    obtain ds rest where "a = (ds, rest)" by (cases a)
    with Some have "c # cs = [] @ spec_occurrence ds @ rest \<and> ds \<noteq> [] \<and> list_all is_digit ds"
      by (simp add: match_downloaded_iff)
    then show ?thesis unfolding spec_occurs_def by blast
  qed
qed

lemma findall_empty_iff: "findall_downloaded s = [] \<longleftrightarrow> \<not> spec_occurs s"
proof
  assume e: "findall_downloaded s = []"
  show "\<not> spec_occurs s"
  proof
    assume "spec_occurs s"
    then obtain pre ds post where
      "s = pre @ spec_occurrence ds @ post" "ds \<noteq> []" "list_all is_digit ds"
      unfolding spec_occurs_def by blast
    with findall_occurrence [of ds pre post] e show False by auto
  qed
next
  assume "\<not> spec_occurs s"
  then show "findall_downloaded s = []" using findall_nonempty_occurs by blast
qed

lemma findall_last_occurrence:
  assumes "ds \<noteq> []" and "list_all is_digit ds" and "\<not> spec_occurs post"
  shows "findall_downloaded (pre @ spec_occurrence ds @ post) \<noteq> [] \<and>
         last (findall_downloaded (pre @ spec_occurrence ds @ post)) = ds"
proof -
  from findall_occurrence [OF assms(1,2), of pre post] obtain xs where
    "findall_downloaded (pre @ spec_occurrence ds @ post) = xs @ ds # findall_downloaded post"
    by blast
  moreover have "findall_downloaded post = []" using assms(3) by (simp add: findall_empty_iff)
  ultimately show ?thesis by simp
qed


lemma marker_not_skipped:
  "startswith line ''Installing Update Chunk Artifacts.'' \<Longrightarrow> line \<noteq> ''Skipped Update.''"
  by (auto simp: startswith_def)

text \<open>\<open>update_log\<close> on a line, as one write after at most two broadcasts.\<close>

lemma update_log_Some:
  assumes dev: "get_device E k w = (device, w1)"
  shows "update_log E k (Some line) w =
     save_device k
       ((if findall_downloaded line \<noteq> []
         then device\<lparr>progress := PyStr (last (findall_downloaded line))\<rparr> else device)
          \<lparr>last_log := Some
             ((if startswith line ''Installing Update Chunk Artifacts.'' then []
               else (case last_log device of None \<Rightarrow> [] | Some t \<Rightarrow> t)) @
              (if line \<noteq> ''Skipped Update.'' then line @ newline else []))\<rparr>)
       [''progress'', ''last_log'']
       ((if line \<noteq> ''Skipped Update.'' then publish_log k (Some (line @ newline)) else id)
          ((if startswith line ''Installing Update Chunk Artifacts.''
            then publish_log k None else id) w1))"
  using dev by (simp add: update_log_def Let_def)

subsection \<open>Digits and the fields of a time\<close>

lemma is_digit_cases:
  "is_digit c \<Longrightarrow>
   c = CHR ''0'' \<or> c = CHR ''1'' \<or> c = CHR ''2'' \<or> c = CHR ''3'' \<or> c = CHR ''4'' \<or>
   c = CHR ''5'' \<or> c = CHR ''6'' \<or> c = CHR ''7'' \<or> c = CHR ''8'' \<or> c = CHR ''9''"
  by (simp add: is_digit_def char_in_def)

lemma digit_val_simps:
  "digit_val CHR ''0'' = 0" "digit_val CHR ''1'' = 1" "digit_val CHR ''2'' = 2"
  "digit_val CHR ''3'' = 3" "digit_val CHR ''4'' = 4" "digit_val CHR ''5'' = 5"
  "digit_val CHR ''6'' = 6" "digit_val CHR ''7'' = 7" "digit_val CHR ''8'' = 8"
  "digit_val CHR ''9'' = 9"
  by (simp_all add: digit_val_def)

lemma digit_classes:
  assumes "is_digit a"
  shows "char_in a ''01'' = (digit_val a < 2)"
    and "char_in a ''0123'' = (digit_val a < 4)"
    and "char_in a ''012345'' = (digit_val a < 6)"
    and "char_in a ''2'' = (digit_val a = 2)"
    and "char_in a ''6'' = (digit_val a = 6)"
    and "char_in a ''0123456789''"
    and "a \<noteq> CHR '':''"
    and "digit_val a < 10"
  using is_digit_cases [OF assms]
  by (elim disjE; simp add: digit_val_simps char_in_def)+

lemma re_H_two:
  assumes a: "is_digit a" and b: "is_digit b" and v: "10 * digit_val a + digit_val b < 24"
  shows "List.bind (re_H (a # b # CHR '':'' # r)) (\<lambda>(h, r1). List.bind (re_colon r1) (F h)) =
         F (10 * digit_val a + digit_val b) r"
proof -
  note da = digit_classes [OF a] and db = digit_classes [OF b]
  have "digit_val a = 2 \<and> digit_val b < 4 \<or> digit_val a < 2"
    using v by arith
  then show ?thesis
    using a b
    by (auto simp: re_H_def re_two_digits_def re_one_digit_def re_colon_def da db)
qed

lemma re_M_two:
  assumes a: "is_digit a" and b: "is_digit b" and v: "10 * digit_val a + digit_val b < 60"
  shows "List.bind (re_M (a # b # CHR '':'' # r)) (\<lambda>(m, r1). List.bind (re_colon r1) (F m)) =
         F (10 * digit_val a + digit_val b) r"
proof -
  note da = digit_classes [OF a] and db = digit_classes [OF b]
  have "digit_val a < 6" using v by arith
  then show ?thesis
    using a b
    by (simp add: re_M_def re_two_digits_def re_one_digit_def re_colon_def da db)
qed

lemma re_S_two:
  assumes a: "is_digit a" and b: "is_digit b" and v: "10 * digit_val a + digit_val b < 60"
  shows "re_S [a, b] = [(10 * digit_val a + digit_val b, []), (digit_val a, [b])]"
proof -
  note da = digit_classes [OF a] and db = digit_classes [OF b]
  have "digit_val a < 6" using v by arith
  then show ?thesis
    using a b
    by (simp add: re_S_def re_two_digits_def re_one_digit_def da db)
qed

lemma strptime_HHMMSS:
  assumes "is_digit h1" "is_digit h2" "is_digit m1" "is_digit m2" "is_digit s1" "is_digit s2"
    and "10 * digit_val h1 + digit_val h2 < 24"
    and "10 * digit_val m1 + digit_val m2 < 60"
    and "10 * digit_val s1 + digit_val s2 < 60"
  shows "strptime_HMS [h1, h2, CHR '':'', m1, m2, CHR '':'', s1, s2] =
     Inr (10 * digit_val h1 + digit_val h2, 10 * digit_val m1 + digit_val m2,
          10 * digit_val s1 + digit_val s2)"
proof -
  have "re_HMS [h1, h2, CHR '':'', m1, m2, CHR '':'', s1, s2] =
     [(10 * digit_val h1 + digit_val h2, 10 * digit_val m1 + digit_val m2,
       10 * digit_val s1 + digit_val s2, []),
      (10 * digit_val h1 + digit_val h2, 10 * digit_val m1 + digit_val m2, digit_val s1, [s2])]"
    unfolding re_HMS_def
    by (subst re_H_two [OF assms(1,2,7)], subst re_M_two [OF assms(3,4,8)],
        subst re_S_two [OF assms(5,6,9)]) simp
  then show ?thesis using assms(9) by (simp add: strptime_HMS_def)
qed

subsection \<open>The examples\<close>

lemma example_env_fields:
  "POLL_TIME example_env = ''00:01:00''" "POLL_TIME_UPDATING example_env = ''00:00:05''"
  "device_defaults example_env = example_defaults"
  "firmware_latest example_env rows d = Some \<lparr>version = ''2.0''\<rparr>"
  "rollout_first example_env rows i = None"
  by (simp_all add: example_env_def example_latest_def example_rollout_def)

lemma example_device_fields:
  "fw_version example_device = Some ''1.0''" "last_state example_device = RUNNING"
  "update_mode example_device = LATEST" "force_update example_device = False"
  "log_complete example_device = True" "last_log example_device = Some ''Installed.''"
  "progress example_device = PyInt 100" "uuid example_device = ''dev1''"
  by (simp_all add: example_device_def example_defaults_def)

lemma example_get_device:
  "get_device example_env ''dev1'' example_world = (example_device, example_world)"
  by (simp add: get_device_def cache_get_def example_world_def)

lemma example_fresh_device:
  "cache_get ''dev2'' empty_world = None"
  "fst (get_device example_env ''dev2'' empty_world) = example_defaults\<lparr>uuid := ''dev2''\<rparr>"
  "devices (snd (get_device example_env ''dev2'' empty_world)) =
     [example_defaults\<lparr>uuid := ''dev2''\<rparr>]"
  by (simp_all add: get_device_def get_device_body_def cache_get_def cache_put_def
      hardware_get_or_create_def device_get_or_create_def find_device_def Let_def
      empty_world_def example_env_fields example_defaults_def)

lemma example_cached: "cache_get ''dev1'' example_world = Some example_device"
  by (simp add: cache_get_def example_world_def)

lemma example_expired:
  "cache_get ''dev1'' (tick 600 example_world) = None"
  "fst (get_device example_env ''dev1'' (tick 600 example_world)) = example_device"
  "devices (snd (get_device example_env ''dev1'' (tick 600 example_world))) = [example_device]"
  by (simp_all add: get_device_def get_device_body_def cache_get_def cache_put_def tick_def
      device_get_or_create_def find_device_def Let_def example_world_def example_device_fields)

lemma example_world_fields:
  "log_subscribers ''dev1'' example_world = [7, 8]"
  "events example_world = []"
  "devices example_world = [example_device]"
  "device_poll_time example_world = Map.empty"
  by (simp_all add: log_subscribers_def example_world_def)

section \<open>The update decision\<close>



section \<open>The log\<close>

text \<open>
  What \<open>update_log\<close> writes to the rows of the device: the progress of the last match, or
  else the progress it read, and the buffer it built.
\<close>

lemma update_log_rows:
  assumes dev: "get_device E k w = (device, w1)"
  shows "devices (update_log E k (Some line) w) =
     map (\<lambda>row. if uuid row = uuid device
                 then row\<lparr>progress :=
                            (if findall_downloaded line \<noteq> []
                             then PyStr (last (findall_downloaded line)) else progress device),
                          last_log := Some
                            ((if startswith line ''Installing Update Chunk Artifacts.'' then []
                              else (case last_log device of None \<Rightarrow> [] | Some t \<Rightarrow> t)) @
                             (if line \<noteq> ''Skipped Update.'' then line @ newline else []))\<rparr>
                 else row)
       (devices w1)"
  unfolding update_log_Some [OF dev]
  by (simp add: save_device_fields publish_log_frame copy_progress_last_log cong: if_cong)

text \<open>
  The last occurrence decides what is written: a line with an occurrence of
  \<open>Downloaded <N>%\<close> after which no further one follows writes the digits of that
  occurrence, whose value as an integer is the number, to every row of the device.
\<close>

lemma update_log_progress_last_occurrence:
  assumes dev: "get_device E k w = (device, w1)"
      and line: "line = pre @ spec_occurrence ds @ post"
      and ds: "ds \<noteq> []" "list_all is_digit ds"
      and post: "\<not> spec_occurs post"
      and row: "row \<in> set (devices (update_log E k (Some line) w))" "uuid row = uuid device"
  shows "progress row = PyStr ds \<and> py_int (progress row) = Some (int (decimal ds))"
proof -
  from findall_last_occurrence [OF ds post, of pre]
  have ne: "findall_downloaded line \<noteq> []" and l: "last (findall_downloaded line) = ds"
    unfolding line by simp_all
  from row have "progress row = PyStr ds"
    unfolding update_log_rows [OF dev] using ne l by auto
  then show ?thesis using ds by (simp add: py_int_def)
qed

text \<open>
  C2 fails on its second sentence. The example device is cached with progress 100. A line
  \<open>Downloaded 42%\<close> writes 42 to its row; the cached device keeps 100, since
  \<open>save_device\<close> does not reach the entry \<open>get_device\<close> reads. The next line, with no
  occurrence, is handled on the cached device and writes its 100 over the 42.
\<close>

theorem update_log_progress_stale:
  "map progress (devices
     (update_log example_env ''dev1'' (Some ''Downloaded 42%'') example_world)) = [PyStr ''42''] \<and>
   findall_downloaded ''Rebooting'' = [] \<and>
   map progress (devices
     (update_log example_env ''dev1'' (Some ''Rebooting'')
        (update_log example_env ''dev1'' (Some ''Downloaded 42%'') example_world))) = [PyInt 100]"
proof -
  let ?wa = "update_log example_env ''dev1'' (Some ''Downloaded 42%'') example_world"
  have f1: "findall_downloaded ''Downloaded 42%'' = [''42'']"
    by (simp add: findall_downloaded.simps match_downloaded_def is_digit_def char_in_def)
  have f2: "findall_downloaded ''Rebooting'' = []"
    by (simp add: findall_downloaded.simps match_downloaded_def)
  have ra: "devices ?wa =
      [example_device\<lparr>progress := PyStr ''42'',
         last_log := Some (''Installed.'' @ ''Downloaded 42%'' @ newline)\<rparr>]"
    unfolding update_log_rows [OF example_get_device] f1
    by (simp add: example_world_fields example_device_fields startswith_def)
  have "cache_get ''dev1'' ?wa = Some example_device"
    unfolding update_log_Some [OF example_get_device]
    by (simp add: cache_get_save_device publish_log_frame example_cached)
  then have dev: "get_device example_env ''dev1'' ?wa = (example_device, ?wa)"
    by (rule get_device_hit)
  have rb: "map progress (devices (update_log example_env ''dev1'' (Some ''Rebooting'') ?wa)) =
      [PyInt 100]"
    unfolding update_log_rows [OF dev] f2 ra
    by (simp add: example_device_fields)
  from ra rb f2 show ?thesis by simp
qed

text \<open>
  C3. For a log line that begins with \<open>Installing Update Chunk Artifacts.\<close>,
  \<open>update_log\<close> first broadcasts a null payload to every subscriber, the buffer being
  cleared, then broadcasts the line and a newline, the text appended to the now empty
  buffer, and then saves: afterwards the buffer in the device's row is exactly the line
  and a newline.
\<close>

theorem update_log_marker:
  assumes dev: "get_device E k w = (device, w1)"
      and marker: "startswith line ''Installing Update Chunk Artifacts.''"
  shows "let w' = update_log E k (Some line) w;
             device' =
               (if findall_downloaded line \<noteq> []
                then device\<lparr>progress := PyStr (last (findall_downloaded line))\<rparr> else device)
                 \<lparr>last_log := Some (line @ newline)\<rparr>
         in w' = save_device k device' [''progress'', ''last_log'']
                   (publish_log k (Some (line @ newline)) (publish_log k None w1)) \<and>
            devices w' =
              map (\<lambda>row. if uuid row = uuid device
                          then row\<lparr>progress := progress device', last_log := Some (line @ newline)\<rparr>
                          else row)
                (devices w1) \<and>
            find_device (uuid device) (devices w') =
              map_option (\<lambda>row. row\<lparr>progress := progress device', last_log := Some (line @ newline)\<rparr>)
                (find_device (uuid device) (devices w1)) \<and>
            (cache_get k w = None \<longrightarrow> find_device k (devices w') = Some device') \<and>
            events w' =
              events w @
              map (\<lambda>cb. Deliver cb None) (log_subscribers k w) @
              map (\<lambda>cb. Deliver cb (Some (line @ newline))) (log_subscribers k w) @
              [CacheSet k device' 600, DbSave device' [''progress'', ''last_log'']]"
proof -
  note fr = get_device_frame [OF dev]
  have subs: "log_subscribers k w1 = log_subscribers k w"
    using fr(2) by (rule log_subscribers_cong)
  define device' where "device' =
    (if findall_downloaded line \<noteq> []
     then device\<lparr>progress := PyStr (last (findall_downloaded line))\<rparr> else device)
      \<lparr>last_log := Some (line @ newline)\<rparr>"
  have ud: "uuid device' = uuid device" by (simp add: device'_def)
  have u: "update_log E k (Some line) w =
       save_device k device' [''progress'', ''last_log'']
         (publish_log k (Some (line @ newline)) (publish_log k None w1))"
    unfolding update_log_Some [OF dev] device'_def
    using marker marker_not_skipped [OF marker] by simp
  have rows: "devices (update_log E k (Some line) w) =
       map (\<lambda>row. if uuid row = uuid device
                   then row\<lparr>progress := progress device', last_log := Some (line @ newline)\<rparr>
                   else row)
         (devices w1)"
    unfolding u
    by (simp add: save_device_fields publish_log_frame copy_progress_last_log ud)
       (simp add: device'_def)
  have found: "find_device (uuid device) (devices (update_log E k (Some line) w)) =
       map_option (\<lambda>row. row\<lparr>progress := progress device', last_log := Some (line @ newline)\<rparr>)
         (find_device (uuid device) (devices w1))"
  proof (cases "find_device (uuid device) (devices w1)")
    case None
    then show ?thesis unfolding rows by (subst find_device_map) simp_all
  next
    case (Some row)
    with find_device_uuid [OF Some] show ?thesis
      unfolding rows by (subst find_device_map) simp_all
  qed
  have miss: "find_device k (devices (update_log E k (Some line) w)) = Some device'"
    if "cache_get k w = None"
  proof -
    from get_device_miss_row [OF that dev]
    have "find_device k (devices w1) = Some device" and "uuid device = k" by simp_all
    with found show ?thesis by (simp add: device'_def)
  qed
  have e: "events (update_log E k (Some line) w) =
       events w @
       map (\<lambda>cb. Deliver cb None) (log_subscribers k w) @
       map (\<lambda>cb. Deliver cb (Some (line @ newline))) (log_subscribers k w) @
       [CacheSet k device' 600, DbSave device' [''progress'', ''last_log'']]"
    by (simp add: u save_device_fields publish_log_frame fr subs
        log_subscribers_cong [where w = w1 and w' = "publish_log _ _ _"])
  from u rows found miss e show ?thesis
    unfolding Let_def device'_def [symmetric] by simp
qed

text \<open>
  The marker alone, on the example device with its old log \<open>Installed.\<close> and its two
  subscribers: null to both, the line to both, and the row's buffer is the line. The same
  once the cache entry has expired and the device is read from its row.
\<close>

theorem update_log_marker_witness:
  "map last_log (devices
      (update_log example_env ''dev1'' (Some ''Installing Update Chunk Artifacts.'') example_world)) =
     [Some (''Installing Update Chunk Artifacts.'' @ newline)] \<and>
   take 4 (events
      (update_log example_env ''dev1'' (Some ''Installing Update Chunk Artifacts.'') example_world)) =
     [Deliver 7 None, Deliver 8 None,
      Deliver 7 (Some (''Installing Update Chunk Artifacts.'' @ newline)),
      Deliver 8 (Some (''Installing Update Chunk Artifacts.'' @ newline))] \<and>
   map_option last_log (find_device ''dev1'' (devices
      (update_log example_env ''dev1'' (Some ''Installing Update Chunk Artifacts.'')
         (tick 600 example_world)))) =
     Some (Some (''Installing Update Chunk Artifacts.'' @ newline))"
proof -
  have m: "startswith ''Installing Update Chunk Artifacts.'' ''Installing Update Chunk Artifacts.''"
    by (simp add: startswith_def)
  note t = update_log_marker [OF example_get_device m, unfolded Let_def]
  note rows = t [THEN conjunct2, THEN conjunct1]
  note e = t [THEN conjunct2, THEN conjunct2, THEN conjunct2, THEN conjunct2]
  have dev: "get_device example_env ''dev1'' (tick 600 example_world) =
      (fst (get_device example_env ''dev1'' (tick 600 example_world)),
       snd (get_device example_env ''dev1'' (tick 600 example_world)))"
    by simp
  note miss = update_log_marker [OF dev m, unfolded Let_def, THEN conjunct2, THEN conjunct2,
      THEN conjunct2, THEN conjunct1, rule_format, OF example_expired(1)]
  show ?thesis
    by (simp add: rows e miss example_world_fields example_device_fields)
qed




section \<open>The cache on a save\<close>

text \<open>
  C5 fails: \<open>save_device\<close> does not write through. The example world caches the device
  without \<open>force_update\<close>. After it is saved with \<open>force_update\<close> the row has the
  new value, but \<open>get_device\<close> still returns the device of before, and goes on doing
  so until the entry of the decorator's cache expires: only then is the row read.
\<close>

theorem save_device_no_write_through:
  "force_update example_device = False \<and>
   map force_update (devices
      (save_device ''dev1'' (example_device\<lparr>force_update := True\<rparr>) [''force_update'']
         example_world)) = [True] \<and>
   fst (get_device example_env ''dev1''
      (save_device ''dev1'' (example_device\<lparr>force_update := True\<rparr>) [''force_update'']
         example_world)) = example_device \<and>
   fst (get_device example_env ''dev1''
      (tick 599 (save_device ''dev1'' (example_device\<lparr>force_update := True\<rparr>) [''force_update'']
         example_world))) = example_device \<and>
   fst (get_device example_env ''dev1''
      (tick 600 (save_device ''dev1'' (example_device\<lparr>force_update := True\<rparr>) [''force_update'']
         example_world))) = example_device\<lparr>force_update := True\<rparr>"
  by (simp add: get_device_def get_device_body_def cache_get_def cache_put_def tick_def
      save_device_def device_save_def copy_fields_def copy_field_def
      device_get_or_create_def find_device_def Let_def example_world_def example_device_fields)

section \<open>Log subscriptions\<close>

text \<open>
  The subscription of a registered device whose first callback call returns: the callback
  is appended to the list and called once with the buffer of the device \<open>get_device\<close>
  returned, every later broadcast reaches it after that call, and however the body of the
  \<open>with\<close> block ends, one registration of the callback is removed, a cancellation
  absorbed and another exception passed on.
\<close>

lemma subscribe_log_scope:
  assumes dev: "get_device E k w = (device, w1)"
  shows "let m = DeviceUpdateManager k;
             w_in = snd (subscribe_log_enter E m cb CallReturned w)
         in fst (subscribe_log_enter E m cb CallReturned w) = Inr () \<and>
            w_in = (set_log_subscribers k (log_subscribers k w @ [cb]) w1)
                     \<lparr>events := events w @ [Deliver cb (last_log device)]\<rparr> \<and>
            (\<forall>p. events (publish_log k p w_in) =
                   events w @ [Deliver cb (last_log device)] @
                   map (\<lambda>c. Deliver c p) (log_subscribers k w @ [cb])) \<and>
            (\<forall>body. cb \<in> set (log_subscribers k (snd (body w_in))) \<longrightarrow>
               subscribe_log E m cb CallReturned body w =
                 (case fst (body w_in) of
                    BodyReturned \<Rightarrow> Inr () | BodyCancelled \<Rightarrow> Inr () | BodyRaised e \<Rightarrow> Inl e,
                  set_log_subscribers k
                    (remove1 cb (log_subscribers k (snd (body w_in)))) (snd (body w_in))))"
proof -
  note fr = get_device_frame [OF dev]
  have subs: "log_subscribers k w1 = log_subscribers k w"
    using fr(2) by (rule log_subscribers_cong)
  let ?m = "DeviceUpdateManager k"
  let ?w_in = "(set_log_subscribers k (log_subscribers k w @ [cb]) w1)
                     \<lparr>events := events w @ [Deliver cb (last_log device)]\<rparr>"
  have enter: "subscribe_log_enter E ?m cb CallReturned w = (Inr (), ?w_in)"
    using dev by (simp add: subscribe_log_enter_def subs set_log_subscribers_def fr)
  have in_subs: "log_subscribers k ?w_in = log_subscribers k w @ [cb]"
    by (simp add: log_subscribers_def set_log_subscribers_def)
  have pub: "events (publish_log k p ?w_in) =
                   events w @ [Deliver cb (last_log device)] @
                   map (\<lambda>c. Deliver c p) (log_subscribers k w @ [cb])" for p
    unfolding publish_log_frame in_subs by simp
  have exit: "subscribe_log_exit ?m cb how w2 =
                 (case how of
                    BodyReturned \<Rightarrow> Inr () | BodyCancelled \<Rightarrow> Inr () | BodyRaised e \<Rightarrow> Inl e,
                  set_log_subscribers k (remove1 cb (log_subscribers k w2)) w2)"
    if "cb \<in> set (log_subscribers k w2)" for how w2
    using that by (cases how) (simp_all add: subscribe_log_exit_def)
  have scope: "subscribe_log E ?m cb CallReturned body w =
                 (case fst (body ?w_in) of
                    BodyReturned \<Rightarrow> Inr () | BodyCancelled \<Rightarrow> Inr () | BodyRaised e \<Rightarrow> Inl e,
                  set_log_subscribers k
                    (remove1 cb (log_subscribers k (snd (body ?w_in)))) (snd (body ?w_in)))"
    if "cb \<in> set (log_subscribers k (snd (body ?w_in)))" for body
    using exit [OF that] by (simp add: subscribe_log_def enter split_beta)
  show ?thesis
    unfolding Let_def using enter pub scope by simp
qed

text \<open>
  C6 fails on three inputs. The callback is registered and called before the \<open>try\<close>
  whose \<open>finally\<close> removes it. (1) The manager of the unknown device has no device:
  \<open>subscribe_log\<close> registers the callback, calls nothing, fails with an
  \<open>AttributeError\<close>, and the callback stays in the list. (2) For the example device, a
  task cancelled during the first callback call: the cancellation goes on to the caller
  and the callback stays in the list, after the two subscribers of before. (3) After the
  line \<open>Rebooting\<close> was logged, the buffer in the row of the example device is
  \<open>Installed.\<close> followed by the line, but a new subscriber is given the buffer of the
  cached device, \<open>Installed.\<close> alone.
\<close>

theorem subscribe_log_leaks_callback:
  "fst (get_update_manager example_env ''unknown'' empty_world) = UnknownUpdateManager ''unknown'' \<and>
   fst (subscribe_log example_env (UnknownUpdateManager ''unknown'') 9 CallReturned example_body
     empty_world) = Inl AttributeError \<and>
   events (snd (subscribe_log example_env (UnknownUpdateManager ''unknown'') 9 CallReturned
     example_body empty_world)) = [] \<and>
   log_subscribers ''unknown''
     (snd (subscribe_log example_env (UnknownUpdateManager ''unknown'') 9 CallReturned example_body
       empty_world)) = [9] \<and>
   fst (subscribe_log example_env (DeviceUpdateManager ''dev1'') 9 CallCancelled example_body
     example_world) = Inl CancelledError \<and>
   events (snd (subscribe_log example_env (DeviceUpdateManager ''dev1'') 9 CallCancelled
     example_body example_world)) = [Deliver 9 (Some ''Installed.'')] \<and>
   log_subscribers ''dev1''
     (snd (subscribe_log example_env (DeviceUpdateManager ''dev1'') 9 CallCancelled example_body
       example_world)) = [7, 8, 9] \<and>
   map last_log (devices
     (update_log example_env ''dev1'' (Some ''Rebooting'') example_world)) =
     [Some (''Installed.'' @ ''Rebooting'' @ newline)] \<and>
   last (events (snd (subscribe_log_enter example_env (DeviceUpdateManager ''dev1'') 9 CallReturned
     (update_log example_env ''dev1'' (Some ''Rebooting'') example_world)))) =
     Deliver 9 (Some ''Installed.'')"
proof -
  have a: "fst (get_update_manager example_env ''unknown'' empty_world) =
      UnknownUpdateManager ''unknown'' \<and>
    fst (subscribe_log example_env (UnknownUpdateManager ''unknown'') 9 CallReturned example_body
      empty_world) = Inl AttributeError \<and>
    events (snd (subscribe_log example_env (UnknownUpdateManager ''unknown'') 9 CallReturned
      example_body empty_world)) = [] \<and>
    log_subscribers ''unknown''
      (snd (subscribe_log example_env (UnknownUpdateManager ''unknown'') 9 CallReturned example_body
        empty_world)) = [9]"
    by (simp add: get_update_manager_def new_UnknownUpdateManager_def subscribe_log_def
        subscribe_log_enter_def log_subscribers_def set_log_subscribers_def empty_world_def)
  have enter: "subscribe_log_enter example_env (DeviceUpdateManager ''dev1'') 9 CallCancelled
      example_world =
      (Inl CancelledError,
       (set_log_subscribers ''dev1'' [7, 8, 9] example_world)
         \<lparr>events := [Deliver 9 (Some ''Installed.'')]\<rparr>)"
    by (simp add: subscribe_log_enter_def example_get_device example_world_fields
        example_device_fields set_log_subscribers_def)
  have b: "fst (subscribe_log example_env (DeviceUpdateManager ''dev1'') 9 CallCancelled
      example_body example_world) = Inl CancelledError \<and>
    events (snd (subscribe_log example_env (DeviceUpdateManager ''dev1'') 9 CallCancelled
      example_body example_world)) = [Deliver 9 (Some ''Installed.'')] \<and>
    log_subscribers ''dev1''
      (snd (subscribe_log example_env (DeviceUpdateManager ''dev1'') 9 CallCancelled example_body
        example_world)) = [7, 8, 9]"
    by (simp add: subscribe_log_def enter log_subscribers_def set_log_subscribers_def)
  let ?wa = "update_log example_env ''dev1'' (Some ''Rebooting'') example_world"
  have f: "findall_downloaded ''Rebooting'' = []"
    by (simp add: findall_downloaded.simps match_downloaded_def)
  have wa: "?wa =
      save_device ''dev1'' (example_device\<lparr>last_log := Some (''Installed.'' @ ''Rebooting'' @ newline)\<rparr>)
        [''progress'', ''last_log''] (publish_log ''dev1'' (Some (''Rebooting'' @ newline)) example_world)"
    unfolding update_log_Some [OF example_get_device] f
    by (simp add: startswith_def example_device_fields)
  have rows: "map last_log (devices ?wa) = [Some (''Installed.'' @ ''Rebooting'' @ newline)]"
    unfolding wa
    by (simp add: save_device_fields publish_log_frame copy_progress_last_log
        example_world_fields)
  have "cache_get ''dev1'' ?wa = Some example_device"
    unfolding wa by (simp add: cache_get_save_device publish_log_frame example_cached)
  then have dev: "get_device example_env ''dev1'' ?wa = (example_device, ?wa)"
    by (rule get_device_hit)
  have c: "last (events (snd (subscribe_log_enter example_env (DeviceUpdateManager ''dev1'') 9
      CallReturned ?wa))) = Deliver 9 (Some ''Installed.'')"
    by (simp add: subscribe_log_enter_def dev example_device_fields Let_def)
  from a b rows c show ?thesis by blast
qed

section \<open>The choice of a manager and the unknown device\<close>

text \<open>
  C7. \<open>get_update_manager\<close> returns the manager of the unknown device exactly when
  the identity is \<open>unknown\<close>; for any other identity it returns the manager of a
  registered device and reports the number of devices to telemetry, changing nothing
  else. The unknown manager's \<open>get_update\<close> always returns FORCED with the firmware
  \<open>Firmware.latest\<close> gives for no device, its poll time is the updating one, and its
  \<open>update_log\<close> changes nothing.
\<close>

theorem get_update_manager_unknown:
  "(case fst (get_update_manager E k w) of
      UnknownUpdateManager i \<Rightarrow> k = ''unknown'' \<and> i = ''unknown''
    | DeviceUpdateManager i \<Rightarrow> k \<noteq> ''unknown'' \<and> i = k) \<and>
   (k \<noteq> ''unknown'' \<longrightarrow>
      snd (get_update_manager E k w) = w\<lparr>events := events w @ [Telemetry (length (devices w))]\<rparr>) \<and>
   (k = ''unknown'' \<longrightarrow>
      snd (get_update_manager E k w) = set_poll_time E ''unknown'' (POLL_TIME_UPDATING E) w \<and>
      poll_time E ''unknown'' (snd (get_update_manager E k w)) = POLL_TIME_UPDATING E \<and>
      events (snd (get_update_manager E k w)) = events w) \<and>
   manager_get_update E (UnknownUpdateManager i) w' =
      (Inr (FORCED, firmware_latest E (devices w') None), w') \<and>
   manager_update_log E (UnknownUpdateManager i) log_data w' = w'"
  by (simp add: get_update_manager_def new_UnknownUpdateManager_def poll_time_set
      set_poll_time_frame)

theorem get_update_manager_unknown_witness:
  "fst (get_update_manager example_env ''unknown'' example_world) = UnknownUpdateManager ''unknown'' \<and>
   poll_time example_env ''unknown'' (snd (get_update_manager example_env ''unknown'' example_world)) =
     ''00:00:05'' \<and>
   get_update_manager example_env ''dev1'' example_world =
     (DeviceUpdateManager ''dev1'', example_world\<lparr>events := [Telemetry 1]\<rparr>) \<and>
   fst (manager_get_update example_env (UnknownUpdateManager ''unknown'') example_world) =
     Inr (FORCED, Some \<lparr>version = ''2.0''\<rparr>) \<and>
   manager_update_log example_env (UnknownUpdateManager ''unknown'') (Some ''Rebooting'') example_world =
     example_world"
proof -
  note u = get_update_manager_unknown [where E = example_env and k = "''unknown''"
      and w = example_world and i = "''unknown''" and w' = example_world
      and log_data = "Some ''Rebooting''"]
  note d = get_update_manager_unknown [where E = example_env and k = "''dev1''"
      and w = example_world and i = "''unknown''" and w' = example_world
      and log_data = "Some ''Rebooting''"]
  have "fst (get_update_manager example_env ''dev1'' example_world) = DeviceUpdateManager ''dev1''"
    using d by (simp split: manager.splits)
  moreover have "fst (get_update_manager example_env ''unknown'' example_world) =
      UnknownUpdateManager ''unknown''"
    using u by (simp split: manager.splits)
  ultimately show ?thesis
    using u d by (simp add: example_env_fields example_world_fields prod_eq_iff poll_time_set)
qed

section \<open>Clearing the log\<close>

lemma save_device_twice:
  "(save_device k d [''last_log''] (publish_log k p (save_device k d [''last_log''] w)))
     \<lparr>events := es\<rparr>
   = (save_device k d [''last_log''] w)\<lparr>events := es\<rparr>"
  by (simp add: save_device_def device_save_def publish_log_def copy_last_log
      comp_def cong: if_cong)

text \<open>
  C8. \<open>clear_log\<close> is idempotent: two calls in a row leave the state one call leaves,
  the record of the calls made apart. After a call the buffer is empty in every row of
  the device, and each call makes, after its write, exactly one call with a null payload
  to each entry of the subscriber list.
\<close>

theorem clear_log_idempotent:
  assumes dev: "get_device E k w = (device, w1)"
  shows "let w' = clear_log E k w;
             w'' = clear_log E k w';
             device' = device\<lparr>last_log := Some []\<rparr>;
             calls = [CacheSet k device' 600, DbSave device' [''last_log'']] @
                     map (\<lambda>cb. Deliver cb None) (log_subscribers k w)
         in w''\<lparr>events := []\<rparr> = w'\<lparr>events := []\<rparr> \<and>
            devices w' =
              map (\<lambda>row. if uuid row = uuid device then row\<lparr>last_log := Some []\<rparr> else row)
                (devices w1) \<and>
            find_device (uuid device) (devices w') =
              map_option (\<lambda>row. row\<lparr>last_log := Some []\<rparr>)
                (find_device (uuid device) (devices w1)) \<and>
            (cache_get k w = None \<longrightarrow> find_device k (devices w') = Some device') \<and>
            events w' = events w @ calls \<and>
            events w'' = events w' @ calls"
proof -
  let ?d = "device\<lparr>last_log := Some []\<rparr>"
  note fr = get_device_frame [OF dev]
  have subs: "log_subscribers k w1 = log_subscribers k w"
    using fr(2) by (rule log_subscribers_cong)
  have w': "clear_log E k w = publish_log k None (save_device k ?d [''last_log''] w1)"
    using dev by (simp add: clear_log_def)
  have hit: "cache_get k (clear_log E k w) = Some device"
    by (simp add: w' publish_log_frame cache_get_save_device get_device_cached [OF dev])
  have w'': "clear_log E k (clear_log E k w) =
      publish_log k None (save_device k ?d [''last_log''] (clear_log E k w))"
    using clear_log_hit [OF hit, of E] by simp
  have subs': "log_subscribers k (clear_log E k w) = log_subscribers k w"
    by (simp add: w' log_subscribers_def publish_log_frame save_device_fields fr)
  have same: "(clear_log E k (clear_log E k w))\<lparr>events := []\<rparr> = (clear_log E k w)\<lparr>events := []\<rparr>"
    unfolding w'' unfolding w'
    using save_device_twice [where k = k and d = "?d" and p = None and w = w1 and es = "[]"]
    by (simp add: publish_log_def)
  have rows: "devices (clear_log E k w) =
      map (\<lambda>row. if uuid row = uuid device then row\<lparr>last_log := Some []\<rparr> else row) (devices w1)"
    by (simp add: w' publish_log_frame save_device_fields copy_last_log)
  have e1: "events (clear_log E k w) =
      events w @ [CacheSet k ?d 600, DbSave ?d [''last_log'']] @
      map (\<lambda>cb. Deliver cb None) (log_subscribers k w)"
    by (simp add: w' publish_log_frame save_device_fields fr subs log_subscribers_def)
  have e2: "events (clear_log E k (clear_log E k w)) =
      events (clear_log E k w) @ [CacheSet k ?d 600, DbSave ?d [''last_log'']] @
      map (\<lambda>cb. Deliver cb None) (log_subscribers k w)"
    unfolding w''
    by (simp add: publish_log_frame save_device_fields subs'
        log_subscribers_cong [where w = "clear_log E k w" and w' = "save_device _ _ _ _"])
  have found: "find_device (uuid device) (devices (clear_log E k w)) =
      map_option (\<lambda>row. row\<lparr>last_log := Some []\<rparr>) (find_device (uuid device) (devices w1))"
  proof (cases "find_device (uuid device) (devices w1)")
    case None
    then show ?thesis unfolding rows by (subst find_device_map) simp_all
  next
    case (Some row)
    with find_device_uuid [OF Some] show ?thesis
      unfolding rows by (subst find_device_map) simp_all
  qed
  have miss: "find_device k (devices (clear_log E k w)) = Some ?d" if "cache_get k w = None"
    using get_device_miss_row [OF that dev] found by auto
  show ?thesis
    unfolding Let_def using same rows found miss e1 e2 by simp
qed

text \<open>
  On the example device, with its two subscribers, and on a device the empty database has
  not seen before, whose row is created and then holds the empty buffer.
\<close>

theorem clear_log_idempotent_witness:
  "(clear_log example_env ''dev1'' (clear_log example_env ''dev1'' example_world))\<lparr>events := []\<rparr> =
     (clear_log example_env ''dev1'' example_world)\<lparr>events := []\<rparr> \<and>
   map last_log (devices (clear_log example_env ''dev1'' example_world)) = [Some []] \<and>
   events (clear_log example_env ''dev1'' example_world) =
     [CacheSet ''dev1'' (example_device\<lparr>last_log := Some []\<rparr>) 600,
      DbSave (example_device\<lparr>last_log := Some []\<rparr>) [''last_log''],
      Deliver 7 None, Deliver 8 None] \<and>
   find_device ''dev2'' (devices (clear_log example_env ''dev2'' empty_world)) =
     Some (example_defaults\<lparr>uuid := ''dev2'', last_log := Some []\<rparr>)"
proof -
  have a: "(clear_log example_env ''dev1'' (clear_log example_env ''dev1'' example_world))
       \<lparr>events := []\<rparr> = (clear_log example_env ''dev1'' example_world)\<lparr>events := []\<rparr> \<and>
     map last_log (devices (clear_log example_env ''dev1'' example_world)) = [Some []] \<and>
     events (clear_log example_env ''dev1'' example_world) =
       [CacheSet ''dev1'' (example_device\<lparr>last_log := Some []\<rparr>) 600,
        DbSave (example_device\<lparr>last_log := Some []\<rparr>) [''last_log''],
        Deliver 7 None, Deliver 8 None]"
    using clear_log_idempotent [OF example_get_device]
    by (simp add: Let_def example_world_fields)
  have dev: "get_device example_env ''dev2'' empty_world =
      (fst (get_device example_env ''dev2'' empty_world),
       snd (get_device example_env ''dev2'' empty_world))"
    by simp
  have b: "find_device ''dev2'' (devices (clear_log example_env ''dev2'' empty_world)) =
     Some (example_defaults\<lparr>uuid := ''dev2'', last_log := Some []\<rparr>)"
    using clear_log_idempotent [OF dev, unfolded Let_def, THEN conjunct2, THEN conjunct2,
        THEN conjunct2, THEN conjunct1]
    by (simp add: example_fresh_device)
  from a b show ?thesis by blast
qed

section \<open>The poll interval\<close>

text \<open>
  C9. Where the device's poll time is a string \<open>HH:MM:SS\<close> (two digits each, hours
  below 24, minutes and seconds below 60), \<open>poll_seconds\<close> is hours times 3600 plus
  minutes times 60 plus seconds. Setting a device's poll time to the idle default removes
  its entry from the table and leaves the other entries alone, and the poll time of a
  device without an entry is the idle default.
\<close>

theorem poll_seconds_interval:
  "(is_digit h1 \<and> is_digit h2 \<and> is_digit m1 \<and> is_digit m2 \<and> is_digit s1 \<and> is_digit s2 \<and>
    10 * digit_val h1 + digit_val h2 < 24 \<and>
    10 * digit_val m1 + digit_val m2 < 60 \<and>
    10 * digit_val s1 + digit_val s2 < 60 \<and>
    poll_time E k w = [h1, h2, CHR '':'', m1, m2, CHR '':'', s1, s2] \<longrightarrow>
      poll_seconds E k w =
        Inr ((10 * digit_val h1 + digit_val h2) * 3600 +
             (10 * digit_val m1 + digit_val m2) * 60 +
             (10 * digit_val s1 + digit_val s2))) \<and>
   device_poll_time (set_poll_time E k (POLL_TIME E) w) k = None \<and>
   (\<forall>k'. k' \<noteq> k \<longrightarrow>
      device_poll_time (set_poll_time E k (POLL_TIME E) w) k' = device_poll_time w k') \<and>
   poll_time E k (set_poll_time E k (POLL_TIME E) w) = POLL_TIME E \<and>
   (device_poll_time w k = None \<longrightarrow> poll_time E k w = POLL_TIME E)"
  by (auto simp: poll_seconds_def strptime_HHMMSS set_poll_time_def poll_time_def domIff)

text \<open>
  The example device has no entry: its interval is the idle \<open>00:01:00\<close>, 60 seconds. A
  device at \<open>12:34:56\<close> polls every 45296 seconds, and back at the idle default it
  has no entry.
\<close>

theorem poll_seconds_interval_witness:
  "poll_seconds example_env ''dev1'' example_world = Inr 60 \<and>
   poll_seconds example_env ''dev1'' (set_poll_time example_env ''dev1'' ''12:34:56'' example_world) =
     Inr 45296 \<and>
   device_poll_time
     (set_poll_time example_env ''dev1'' ''00:01:00''
        (set_poll_time example_env ''dev1'' ''12:34:56'' example_world)) ''dev1'' = None"
proof -
  have p1: "poll_time example_env ''dev1'' example_world = ''00:01:00''"
    by (simp add: poll_time_def example_world_fields example_env_fields)
  have p2: "poll_time example_env ''dev1''
      (set_poll_time example_env ''dev1'' ''12:34:56'' example_world) = ''12:34:56''"
    by (rule poll_time_set)
  have dg: "is_digit CHR ''0''" "is_digit CHR ''1''" "is_digit CHR ''2''" "is_digit CHR ''3''"
    "is_digit CHR ''4''" "is_digit CHR ''5''" "is_digit CHR ''6''"
    by (simp_all add: is_digit_def char_in_def)
  from poll_seconds_interval [of "CHR ''0''" "CHR ''0''" "CHR ''0''" "CHR ''1''" "CHR ''0''"
      "CHR ''0''" example_env "''dev1''" example_world]
  have a: "poll_seconds example_env ''dev1'' example_world = Inr 60"
    by (simp add: dg digit_val_simps p1)
  from poll_seconds_interval [of "CHR ''1''" "CHR ''2''" "CHR ''3''" "CHR ''4''" "CHR ''5''"
      "CHR ''6''" example_env "''dev1''"
      "set_poll_time example_env ''dev1'' ''12:34:56'' example_world"]
  have b: "poll_seconds example_env ''dev1''
      (set_poll_time example_env ''dev1'' ''12:34:56'' example_world) = Inr 45296"
    by (simp add: dg digit_val_simps p2)
  from poll_seconds_interval [of "CHR ''0''" "CHR ''0''" "CHR ''0''" "CHR ''1''" "CHR ''0''"
      "CHR ''0''" example_env "''dev1''"
      "set_poll_time example_env ''dev1'' ''12:34:56'' example_world"]
  have c: "device_poll_time
     (set_poll_time example_env ''dev1'' ''00:01:00''
        (set_poll_time example_env ''dev1'' ''12:34:56'' example_world)) ''dev1'' = None"
    by (simp add: example_env_fields)
  from a b c show ?thesis by simp
qed

section \<open>The outcomes that occur\<close>

text \<open>
  C10. \<open>HandlingType\<close> has the value ATTEMPT, but \<open>get_update\<close> never returns it:
  for both kinds of manager and in every state the call returns, and its outcome is SKIP
  or FORCED.
\<close>

theorem get_update_never_attempt:
  "\<exists>h fw. fst (manager_get_update E m w) = Inr (h, fw) \<and> (h = SKIP \<or> h = FORCED) \<and> h \<noteq> ATTEMPT"
proof (cases m)
  case (UnknownUpdateManager i)
  then show ?thesis by simp
next
  case (DeviceUpdateManager i)
  obtain device w1 where dev: "get_device E i w = (device, w1)"
    by (cases "get_device E i w")
  have hit: "cache_get i w1 = Some device" using dev by (rule get_device_cached)
  show ?thesis
    unfolding DeviceUpdateManager manager_get_update.simps
      get_update_via_cache [OF dev] get_update_hit [OF hit]
    by (simp split: option.splits)
qed

theorem get_update_never_attempt_witness:
  "\<exists>h fw. fst (manager_get_update example_env (DeviceUpdateManager ''dev1'') example_world) =
      Inr (h, fw) \<and> (h = SKIP \<or> h = FORCED) \<and> h \<noteq> ATTEMPT"
  using get_update_never_attempt [of example_env "DeviceUpdateManager ''dev1''" example_world]
  by simp

end
